theory Spec2Isabelle
  imports Main
begin

section \<open>Python strings\<close>

text \<open>
  A Python \<open>str\<close> is modelled as a \<open>string\<close>: characters below 128 are the ASCII
  characters, the others stand for non-ASCII code points.
\<close>

definition is_ascii :: "char \<Rightarrow> bool" where
  "is_ascii c = ((of_char c :: nat) < 128)"

definition in_class :: "char \<Rightarrow> char \<Rightarrow> char \<Rightarrow> bool" where
  \<comment> \<open>membership in the character range \<open>[lo-hi]\<close>\<close>
  "in_class lo hi c = ((of_char lo :: nat) \<le> of_char c \<and> (of_char c :: nat) \<le> of_char hi)"

definition lower_char :: "char \<Rightarrow> char" where
  "lower_char c = (if in_class CHR ''A'' CHR ''Z'' c then char_of (of_char c + (32 :: nat)) else c)"

definition lower :: "string \<Rightarrow> string" where
  \<comment> \<open>\<open>str.lower()\<close>; a non-ASCII character is left as it is (its lower case is never one
      of the ASCII letters of an allowed extension)\<close>
  "lower s = map lower_char s"

definition is_space :: "char \<Rightarrow> bool" where
  \<comment> \<open>the ASCII characters for which \<open>str.isspace()\<close> holds\<close>
  "is_space c = (c \<in> set [CHR 0x20, CHR 0x09, CHR 0x0A, CHR 0x0B, CHR 0x0C, CHR 0x0D,
                           CHR 0x1C, CHR 0x1D, CHR 0x1E, CHR 0x1F])"

fun py_split_aux :: "string \<Rightarrow> string \<Rightarrow> string list" where
  "py_split_aux w [] = (if w = [] then [] else [rev w])"
| "py_split_aux w (c # cs) =
     (if is_space c then (if w = [] then py_split_aux [] cs else rev w # py_split_aux [] cs)
      else py_split_aux (c # w) cs)"

definition py_split :: "string \<Rightarrow> string list" where
  \<comment> \<open>\<open>s.split()\<close>: the maximal runs of non-whitespace characters\<close>
  "py_split s = py_split_aux [] s"

fun join :: "string \<Rightarrow> string list \<Rightarrow> string" where
  "join sep [] = []"
| "join sep [x] = x"
| "join sep (x # y # ys) = x @ sep @ join sep (y # ys)"

definition py_strip :: "string \<Rightarrow> string \<Rightarrow> string" where
  \<comment> \<open>\<open>s.strip(chars)\<close>\<close>
  "py_strip chars s =
     rev (dropWhile (\<lambda>c. c \<in> set chars) (rev (dropWhile (\<lambda>c. c \<in> set chars) s)))"

fun rfind :: "char \<Rightarrow> string \<Rightarrow> nat option" where
  "rfind c [] = None"
| "rfind c (x # xs) =
     (case rfind c xs of
        Some i \<Rightarrow> Some (Suc i)
      | None \<Rightarrow> if x = c then Some 0 else None)"

definition rsplit1 :: "string \<Rightarrow> char \<Rightarrow> string list" where
  \<comment> \<open>\<open>s.rsplit(sep, 1)\<close> for a separator of one character\<close>
  "rsplit1 s sep =
     (case rfind sep s of
        None \<Rightarrow> [s]
      | Some i \<Rightarrow> [take i s, drop (Suc i) s])"

definition index :: "'a list \<Rightarrow> nat \<Rightarrow> 'a option" where
  \<comment> \<open>\<open>xs[i]\<close> for \<open>i \<ge> 0\<close>; \<open>None\<close> is the IndexError\<close>
  "index xs i = (if i < length xs then Some (xs ! i) else None)"

definition found :: "'a option \<Rightarrow> bool" where
  \<comment> \<open>the truth value of an object or \<open>None\<close>\<close>
  "found r = (case r of None \<Rightarrow> False | Some x \<Rightarrow> True)"

definition truthy :: "string option \<Rightarrow> bool" where
  \<comment> \<open>the truth value of a \<open>str\<close> or \<open>None\<close>\<close>
  "truthy v = (case v of None \<Rightarrow> False | Some s \<Rightarrow> s \<noteq> [])"

section \<open>The pattern of \<open>re.match\<close>\<close>

datatype re_item = Caret | Dollar | ClassRep char char nat

fun re_match_here :: "re_item list \<Rightarrow> bool \<Rightarrow> string \<Rightarrow> bool" where
  "re_match_here [] at_start s = True"
| "re_match_here (Caret # p) at_start s = (at_start \<and> re_match_here p at_start s)"
| "re_match_here (Dollar # p) at_start s =
     ((s = [] \<or> s = [CHR 0x0A]) \<and> re_match_here p at_start s)"
| "re_match_here (ClassRep lo hi n # p) at_start s =
     (n \<le> length s \<and> list_all (in_class lo hi) (take n s) \<and>
      re_match_here p (at_start \<and> n = 0) (drop n s))"

definition re_match :: "re_item list \<Rightarrow> string \<Rightarrow> bool" where
  \<comment> \<open>\<open>re.match(pattern, s)\<close> is not \<open>None\<close>: the pattern matches at the beginning of
      \<open>s\<close>. Without \<open>re.MULTILINE\<close>, \<open>^\<close> matches at the start of the string and \<open>$\<close> at
      its end or just before a newline that ends it.\<close>
  "re_match p s = re_match_here p True s"

definition VIT_ID_PATTERN :: "re_item list" where
  \<comment> \<open>\<open>r'^[0-9]{2}[A-Z]{3}[0-9]{4}$'\<close>\<close>
  "VIT_ID_PATTERN =
     [Caret, ClassRep CHR ''0'' CHR ''9'' 2, ClassRep CHR ''A'' CHR ''Z'' 3,
      ClassRep CHR ''0'' CHR ''9'' 4, Dollar]"

section \<open>Library functions: \<open>secure_filename\<close> and \<open>os.path.join\<close>\<close>

definition normalize_NFKD :: "(char \<Rightarrow> string) \<Rightarrow> string \<Rightarrow> string" where
  \<comment> \<open>\<open>unicodedata.normalize("NFKD", s)\<close>: an ASCII character is its own decomposition, a
      non-ASCII one is replaced by its compatibility decomposition, a table of Unicode
      taken as the parameter \<open>decomp\<close>. (The reordering of combining marks only moves
      non-ASCII characters, which the next step of \<open>secure_filename\<close> drops.)\<close>
  "normalize_NFKD decomp s = concat (map (\<lambda>c. if is_ascii c then [c] else decomp c) s)"

definition ascii_ignore :: "string \<Rightarrow> string" where
  \<comment> \<open>\<open>s.encode("ascii", "ignore").decode("ascii")\<close>\<close>
  "ascii_ignore s = filter is_ascii s"

definition replace_char :: "char \<Rightarrow> char \<Rightarrow> string \<Rightarrow> string" where
  "replace_char a b s = map (\<lambda>c. if c = a then b else c) s"

definition filename_ascii_ok :: "char \<Rightarrow> bool" where
  \<comment> \<open>the characters kept by \<open>_filename_ascii_strip_re = [^A-Za-z0-9_.-]\<close>\<close>
  "filename_ascii_ok c =
     (in_class CHR ''A'' CHR ''Z'' c \<or> in_class CHR ''a'' CHR ''z'' c \<or>
      in_class CHR ''0'' CHR ''9'' c \<or> c = CHR ''_'' \<or> c = CHR ''.'' \<or> c = CHR ''-'')"

definition secure_filename :: "(char \<Rightarrow> string) \<Rightarrow> string \<Rightarrow> string" where
  \<comment> \<open>\<open>werkzeug.utils.secure_filename\<close> on a POSIX system (\<open>os.sep\<close> is \<open>/\<close>, there is no
      \<open>os.path.altsep\<close>, and the branch for Windows device names is not taken)\<close>
  "secure_filename decomp filename =
     (let filename = ascii_ignore (normalize_NFKD decomp filename);
          filename = replace_char CHR ''/'' CHR '' '' filename
      in py_strip ''._'' (filter filename_ascii_ok (join ''_'' (py_split filename))))"

definition os_path_join :: "string \<Rightarrow> string \<Rightarrow> string" where
  \<comment> \<open>\<open>posixpath.join(a, b)\<close>\<close>
  "os_path_join a b =
     (if b \<noteq> [] \<and> hd b = CHR ''/'' then b
      else if a = [] \<or> last a = CHR ''/'' then a @ b
      else a @ ''/'' @ b)"

section \<open>Configuration\<close>

definition UPLOAD_FOLDER :: string where
  "UPLOAD_FOLDER = ''uploads''"

definition ALLOWED_EXTENSIONS :: "string set" where
  "ALLOWED_EXTENSIONS = {''png'', ''jpg'', ''jpeg''}"

definition allowed_file :: "string \<Rightarrow> bool option" where
  \<comment> \<open>\<open>None\<close> is the IndexError of \<open>[1]\<close>; \<open>and\<close> evaluates its right operand only when
      the left one holds\<close>
  "allowed_file filename =
     (if CHR ''.'' \<in> set filename
      then (case index (rsplit1 filename CHR ''.'') 1 of
              None \<Rightarrow> None
            | Some ext \<Rightarrow> Some (lower ext \<in> ALLOWED_EXTENSIONS))
      else Some False)"

section \<open>Database models and stored state\<close>

text \<open>
  The columns of the two models, prefixed by \<open>u_\<close> and \<open>p_\<close> since both models have an
  \<open>id\<close>, a \<open>full_name\<close> and a \<open>vit_id\<close>. The \<open>id\<close> of an object is \<open>None\<close> until its row
  is inserted, and so is the \<open>timestamp\<close>, whose default is the time of the insert.
\<close>

record user =
  u_id :: "nat option"
  u_full_name :: string
  u_vit_id :: string
  u_email :: string
  u_password :: string

record photo_submission =
  p_id :: "nat option"
  p_full_name :: string
  p_vit_id :: string
  p_photo_title :: string
  p_theme :: string
  p_description :: "string option"
  p_photo_filename :: string
  p_timestamp :: "nat option"

datatype row = UserRow user | PhotoRow photo_submission

text \<open>
  What outlives a request: the two tables and the files on disk (path to content).
\<close>

record state =
  users :: "user list"
  photos :: "photo_submission list"
  disk :: "string \<rightharpoonup> string"

text \<open>
  What a request meets outside the program: whether \<open>photo_file.save\<close> and
  \<open>db.session.commit\<close> raise (and with which message), the clock of the database, and the
  decomposition table of Unicode.
\<close>

record env =
  save_exc :: "string option"
  commit_exc :: "string option"
  now :: nat
  decomp :: "char \<Rightarrow> string"

record file_storage =
  filename :: string
  content :: string

record request =
  form :: "string \<rightharpoonup> string"
  files :: "string \<rightharpoonup> file_storage"

type_synonym response = "string \<times> nat"

section \<open>The database session\<close>

definition next_id :: "nat option list \<Rightarrow> nat" where
  \<comment> \<open>an integer primary key is one more than the largest one in the table\<close>
  "next_id ids = Suc (fold max (map (\<lambda>i. case i of None \<Rightarrow> 0 | Some n \<Rightarrow> n) ids) 0)"

definition filter_by_vit_id_first :: "user list \<Rightarrow> string \<Rightarrow> user option" where
  \<comment> \<open>\<open>User.query.filter_by(vit_id=v).first()\<close>\<close>
  "filter_by_vit_id_first us v = find (\<lambda>u. u_vit_id u = v) us"

definition filter_by_email_first :: "user list \<Rightarrow> string \<Rightarrow> user option" where
  \<comment> \<open>\<open>User.query.filter_by(email=e).first()\<close>\<close>
  "filter_by_email_first us e = find (\<lambda>u. u_email u = e) us"

fun flush_row :: "env \<Rightarrow> row \<Rightarrow> state \<Rightarrow> string + state" where
  "flush_row ev (UserRow u) st =
     (if list_ex (\<lambda>u'. u_vit_id u' = u_vit_id u) (users st)
      then Inl ''UNIQUE constraint failed: user.vit_id''
      else if list_ex (\<lambda>u'. u_email u' = u_email u) (users st)
      then Inl ''UNIQUE constraint failed: user.email''
      else Inr (st\<lparr>users := users st @ [u\<lparr>u_id := Some (next_id (map u_id (users st)))\<rparr>]\<rparr>))"
| "flush_row ev (PhotoRow p) st =
     Inr (st\<lparr>photos := photos st @
            [p\<lparr>p_id := Some (next_id (map p_id (photos st))), p_timestamp := Some (now ev)\<rparr>]\<rparr>)"

fun flush :: "env \<Rightarrow> row list \<Rightarrow> state \<Rightarrow> string + state" where
  "flush ev [] st = Inr st"
| "flush ev (r # rs) st =
     (case flush_row ev r st of
        Inl e \<Rightarrow> Inl e
      | Inr st' \<Rightarrow> flush ev rs st')"

definition session_commit :: "env \<Rightarrow> row list \<Rightarrow> state \<Rightarrow> string + state" where
  \<comment> \<open>\<open>db.session.commit()\<close> with the given objects added to the session of the request:
      \<open>Inl\<close> is the exception raised, by the database itself or by a constraint of the
      tables; the transaction is then not committed, and \<open>db.session.rollback()\<close> leaves
      the tables as they were before it\<close>
  "session_commit ev session st =
     (case commit_exc ev of
        Some e \<Rightarrow> Inl e
      | None \<Rightarrow> flush ev session st)"

section \<open>The file system\<close>

definition file_save :: "env \<Rightarrow> file_storage \<Rightarrow> string \<Rightarrow> state \<Rightarrow> string + state" where
  \<comment> \<open>\<open>photo_file.save(file_path)\<close>\<close>
  "file_save ev f file_path st =
     (case save_exc ev of
        Some e \<Rightarrow> Inl e
      | None \<Rightarrow> Inr (st\<lparr>disk := (disk st)(file_path \<mapsto> content f)\<rparr>))"

definition os_path_exists :: "state \<Rightarrow> string \<Rightarrow> bool" where
  "os_path_exists st file_path = (disk st file_path \<noteq> None)"

definition os_remove :: "state \<Rightarrow> string \<Rightarrow> state" where
  "os_remove st file_path = st\<lparr>disk := (disk st)(file_path := None)\<rparr>"

section \<open>The routes\<close>

text \<open>
  Both routes are registered for POST only, so the test of \<open>request.method\<close> holds.
  After the test of \<open>all([...])\<close> the fields read with \<open>the\<close> are strings.
\<close>

definition register :: "env \<Rightarrow> state \<Rightarrow> request \<Rightarrow> response \<times> state" where
  "register ev st req =
     (let data = form req;
          full_name = data ''fullName'';
          vit_id = data ''vitId'';
          email = data ''email'';
          password = data ''password'';
          confirm_password = data ''confirmPassword''
      in if \<not> list_all truthy [full_name, vit_id, email, password, confirm_password]
         then ((''All fields are required!'', 400), st)
         else if password \<noteq> confirm_password
         then ((''Passwords do not match!'', 400), st)
         else if \<not> re_match VIT_ID_PATTERN (the vit_id)
         then ((''Invalid VIT ID format.'', 400), st)
         else if found (filter_by_vit_id_first (users st) (the vit_id))
                 \<or> found (filter_by_email_first (users st) (the email))
         then ((''User with this VIT ID or Email already exists!'', 409), st)
         else
           (let new_user = \<lparr>u_id = None, u_full_name = the full_name, u_vit_id = the vit_id,
                             u_email = the email, u_password = the password\<rparr>
            in case session_commit ev [UserRow new_user] st of
                 Inr st' \<Rightarrow> ((''Registration successful!'', 201), st')
               | Inl e \<Rightarrow> ((''Error registering user: '' @ e, 500), st)))"

definition submit_photo :: "env \<Rightarrow> state \<Rightarrow> request \<Rightarrow> response \<times> state" where
  "submit_photo ev st req =
     (let full_name = form req ''fullName'';
          vit_id = form req ''vitId'';
          photo_title = form req ''photoTitle'';
          theme = form req ''theme'';
          description = form req ''description''
      in if \<not> list_all truthy [full_name, vit_id, photo_title, theme]
         then ((''Required fields are missing!'', 400), st)
         else if \<not> re_match VIT_ID_PATTERN (the vit_id)
         then ((''Invalid VIT ID format.'', 400), st)
         else
           (case files req ''photoFile'' of
              None \<Rightarrow> ((''No photo file part in the request!'', 400), st)
            | Some photo_file \<Rightarrow>
                if filename photo_file = []
                then ((''No selected photo file!'', 400), st)
                else
                  (case allowed_file (filename photo_file) of
                     None \<Rightarrow> ((''Internal Server Error'', 500), st)
                   | Some allowed \<Rightarrow>
                       if filename photo_file \<noteq> [] \<and> allowed
                       then
                         (let fname = secure_filename (decomp ev) (filename photo_file);
                              file_path = os_path_join UPLOAD_FOLDER fname
                          in case file_save ev photo_file file_path st of
                               Inl e \<Rightarrow> ((''Error saving file: '' @ e, 500), st)
                             | Inr st1 \<Rightarrow>
                                 (let new_submission =
                                        \<lparr>p_id = None, p_full_name = the full_name,
                                         p_vit_id = the vit_id, p_photo_title = the photo_title,
                                         p_theme = the theme, p_description = description,
                                         p_photo_filename = fname, p_timestamp = None\<rparr>
                                  in case session_commit ev [PhotoRow new_submission] st1 of
                                       Inr st2 \<Rightarrow> ((''Photo submitted successfully!'', 201), st2)
                                     | Inl e \<Rightarrow>
                                         ((''Error saving submission to database: '' @ e, 500),
                                          (if os_path_exists st1 file_path
                                           then os_remove st1 file_path else st1))))
                       else ((''Invalid file type. Only PNG, JPG, JPEG are allowed!'', 400), st))))"

section \<open>Conditions on requests\<close>

definition register_request_valid :: "request \<Rightarrow> bool" where
  \<comment> \<open>the five fields are present, the passwords are equal and the ID has the format\<close>
  "register_request_valid req =
     (list_all truthy [form req ''fullName'', form req ''vitId'', form req ''email'',
                       form req ''password'', form req ''confirmPassword''] \<and>
      form req ''password'' = form req ''confirmPassword'' \<and>
      re_match VIT_ID_PATTERN (the (form req ''vitId'')))"

definition photo_fields_valid :: "request \<Rightarrow> bool" where
  \<comment> \<open>the four required fields are present and the ID has the format\<close>
  "photo_fields_valid req =
     (list_all truthy [form req ''fullName'', form req ''vitId'', form req ''photoTitle'',
                       form req ''theme''] \<and>
      re_match VIT_ID_PATTERN (the (form req ''vitId'')))"

definition photo_request_valid :: "request \<Rightarrow> file_storage \<Rightarrow> bool" where
  \<comment> \<open>the request passes every validation of \<open>submit_photo\<close>, with \<open>f\<close> its file\<close>
  "photo_request_valid req f =
     (photo_fields_valid req \<and> files req ''photoFile'' = Some f \<and> filename f \<noteq> [] \<and>
      allowed_file (filename f) = Some True)"

definition upload_path :: "env \<Rightarrow> file_storage \<Rightarrow> string" where
  \<comment> \<open>the \<open>file_path\<close> of \<open>submit_photo\<close>\<close>
  "upload_path ev f = os_path_join UPLOAD_FOLDER (secure_filename (decomp ev) (filename f))"

definition directly_inside :: "string \<Rightarrow> string \<Rightarrow> bool" where
  \<comment> \<open>\<open>path\<close> is \<open>dir/name\<close> for a name that is not empty, has no separator and is
      neither \<open>.\<close> nor \<open>..\<close>\<close>
  "directly_inside dir path =
     (take (Suc (length dir)) path = dir @ ''/'' \<and>
      (let name = drop (Suc (length dir)) path
       in name \<noteq> [] \<and> CHR ''/'' \<notin> set name \<and> name \<noteq> ''.'' \<and> name \<noteq> ''..''))"

definition after_last :: "char \<Rightarrow> string \<Rightarrow> string" where
  \<comment> \<open>the substring after the last occurrence of \<open>c\<close>\<close>
  "after_last c s = rev (takeWhile (\<lambda>x. x \<noteq> c) (rev s))"

definition unique_users :: "state \<Rightarrow> bool" where
  \<comment> \<open>no two rows of the User table share a \<open>vit_id\<close> or an \<open>email\<close>\<close>
  "unique_users st = (distinct (map u_vit_id (users st)) \<and> distinct (map u_email (users st)))"

definition has_allowed_extension :: "string \<Rightarrow> bool" where
  \<comment> \<open>the name contains a dot and what follows its last dot, lowercased, is one of
      png, jpg, jpeg\<close>
  "has_allowed_extension name =
     (CHR ''.'' \<in> set name \<and> lower (after_last CHR ''.'' name) \<in> {''png'', ''jpg'', ''jpeg''})"

definition vit_id_format :: "string \<Rightarrow> bool" where
  \<comment> \<open>exactly two digits, three uppercase letters and four digits, and nothing else\<close>
  "vit_id_format s =
     (length s = 9 \<and> list_all (in_class CHR ''0'' CHR ''9'') (take 2 s) \<and>
      list_all (in_class CHR ''A'' CHR ''Z'') (take 3 (drop 2 s)) \<and>
      list_all (in_class CHR ''0'' CHR ''9'') (drop 5 s))"

definition new_user_row :: "state \<Rightarrow> request \<Rightarrow> user" where
  \<comment> \<open>the row a registration inserts: the submitted fields and the next \<open>id\<close>\<close>
  "new_user_row st req =
     \<lparr>u_id = Some (next_id (map u_id (users st))), u_full_name = the (form req ''fullName''),
      u_vit_id = the (form req ''vitId''), u_email = the (form req ''email''),
      u_password = the (form req ''password'')\<rparr>"

definition new_photo_row :: "env \<Rightarrow> state \<Rightarrow> request \<Rightarrow> file_storage \<Rightarrow> photo_submission" where
  \<comment> \<open>the row a submission of the file \<open>f\<close> inserts\<close>
  "new_photo_row ev st req f =
     \<lparr>p_id = Some (next_id (map p_id (photos st))), p_full_name = the (form req ''fullName''),
      p_vit_id = the (form req ''vitId''), p_photo_title = the (form req ''photoTitle''),
      p_theme = the (form req ''theme''), p_description = form req ''description'',
      p_photo_filename = secure_filename (decomp ev) (filename f),
      p_timestamp = Some (now ev)\<rparr>"

definition already_registered :: "state \<Rightarrow> request \<Rightarrow> bool" where
  \<comment> \<open>the \<open>vitId\<close> or the \<open>email\<close> of the request is that of a stored User\<close>
  "already_registered st req =
     list_ex (\<lambda>u. form req ''vitId'' = Some (u_vit_id u) \<or> form req ''email'' = Some (u_email u))
       (users st)"

definition plain_letter :: "char \<Rightarrow> bool" where
  \<comment> \<open>the letters an allowed extension can start with\<close>
  "plain_letter c = (c \<in> set ''pPjJ'')"

definition same_letter :: "char \<Rightarrow> char \<Rightarrow> bool" where
  \<comment> \<open>\<open>c\<close> is the lowercase letter \<open>l\<close> of an allowed extension or its capital\<close>
  "same_letter c l =
     ((c, l) \<in> set [(CHR ''p'', CHR ''p''), (CHR ''P'', CHR ''p''), (CHR ''n'', CHR ''n''),
                     (CHR ''N'', CHR ''n''), (CHR ''g'', CHR ''g''), (CHR ''G'', CHR ''g''),
                     (CHR ''j'', CHR ''j''), (CHR ''J'', CHR ''j''), (CHR ''e'', CHR ''e''),
                     (CHR ''E'', CHR ''e'')])"

definition extension_accepted :: "string \<Rightarrow> bool" where
  \<comment> \<open>the name contains a dot and what follows its last dot is png, jpg or jpeg written
      in any mix of lowercase and capital letters\<close>
  "extension_accepted name =
     (CHR ''.'' \<in> set name \<and>
      list_ex (list_all2 same_letter (after_last CHR ''.'' name)) [''png'', ''jpg'', ''jpeg''])"

text \<open>Sample data.\<close>

definition env_ok :: env where
  "env_ok = \<lparr>save_exc = None, commit_exc = None, now = 1700000000, decomp = (\<lambda>c. [])\<rparr>"

definition state_empty :: state where
  "state_empty = \<lparr>users = [], photos = [], disk = Map.empty\<rparr>"

definition register_form :: "string \<rightharpoonup> string" where
  "register_form =
     [''fullName'' \<mapsto> ''Asha Rao'', ''vitId'' \<mapsto> ''21ABC1234'', ''email'' \<mapsto> ''asha@vit.in'',
      ''password'' \<mapsto> ''secret'', ''confirmPassword'' \<mapsto> ''secret'']"

definition photo_form :: "string \<rightharpoonup> string" where
  "photo_form =
     [''fullName'' \<mapsto> ''Asha Rao'', ''vitId'' \<mapsto> ''21ABC1234'', ''photoTitle'' \<mapsto> ''Dawn'',
      ''theme'' \<mapsto> ''Nature'']"

definition user_asha :: user where
  "user_asha = \<lparr>u_id = Some 1, u_full_name = ''Asha Rao'', u_vit_id = ''21ABC1234'',
                 u_email = ''asha@vit.in'', u_password = ''secret''\<rparr>"

definition env_save_fails :: env where
  "env_save_fails = env_ok\<lparr>save_exc := Some ''No space left on device''\<rparr>"

definition env_commit_fails :: env where
  "env_commit_fails = env_ok\<lparr>commit_exc := Some ''database is locked''\<rparr>"

definition dawn_png :: file_storage where
  "dawn_png = \<lparr>filename = ''dawn.png'', content = ''PNGDATA''\<rparr>"

definition register_request :: request where
  "register_request = \<lparr>form = register_form, files = Map.empty\<rparr>"

definition photo_request :: request where
  "photo_request = \<lparr>form = photo_form, files = [''photoFile'' \<mapsto> dawn_png]\<rparr>"

definition newline_id :: string where
  \<comment> \<open>an ID followed by a line feed, as the form field \<open>vitId=21ABC1234%0A\<close> carries it\<close>
  "newline_id = ''21ABC1234'' @ [CHR 0x0A]"

definition register_request_newline :: request where
  "register_request_newline = \<lparr>form = register_form(''vitId'' \<mapsto> newline_id), files = Map.empty\<rparr>"

definition photo_request_newline :: request where
  "photo_request_newline =
     \<lparr>form = photo_form(''vitId'' \<mapsto> newline_id), files = [''photoFile'' \<mapsto> dawn_png]\<rparr>"

definition empty_png :: file_storage where
  \<comment> \<open>a file of zero bytes with an allowed name\<close>
  "empty_png = \<lparr>filename = ''dawn.png'', content = []\<rparr>"

definition photo_request_empty_file :: request where
  "photo_request_empty_file = \<lparr>form = photo_form, files = [''photoFile'' \<mapsto> empty_png]\<rparr>"

definition photo_gif :: file_storage where
  "photo_gif = \<lparr>filename = ''photo.gif'', content = ''GIF89a''\<rparr>"

definition photo_request_gif :: request where
  "photo_request_gif = \<lparr>form = photo_form, files = [''photoFile'' \<mapsto> photo_gif]\<rparr>"

definition traversal_png :: file_storage where
  \<comment> \<open>a file whose name climbs out of the directory\<close>
  "traversal_png = \<lparr>filename = ''../../etc/passwd.png'', content = ''PNGDATA''\<rparr>"

definition photo_request_traversal :: request where
  "photo_request_traversal = \<lparr>form = photo_form, files = [''photoFile'' \<mapsto> traversal_png]\<rparr>"

definition photo_request_no_file :: request where
  "photo_request_no_file = \<lparr>form = photo_form, files = Map.empty\<rparr>"

definition state_asha :: state where
  \<comment> \<open>the state after the registration of the sample user\<close>
  "state_asha = \<lparr>users = [user_asha], photos = [], disk = Map.empty\<rparr>"

definition register_request_mismatch :: request where
  "register_request_mismatch =
     \<lparr>form = register_form(''confirmPassword'' \<mapsto> ''secreT''), files = Map.empty\<rparr>"

definition mixed_case_png :: file_storage where
  "mixed_case_png = \<lparr>filename = ''Dawn.v2.PnG'', content = ''PNGDATA''\<rparr>"

definition photo_request_mixed_case :: request where
  "photo_request_mixed_case = \<lparr>form = photo_form, files = [''photoFile'' \<mapsto> mixed_case_png]\<rparr>"

section \<open>Strings: the extension and the pattern\<close>

lemma rfind_None: "(rfind c s = None) = (c \<notin> set s)"
  by (induction s) (auto split: option.splits)

lemma after_last_Cons:
  "after_last c (x # xs) = (if c \<in> set xs then after_last c xs else if x = c then xs else x # xs)"
proof (cases "c \<in> set xs")
  case True
  then have "c \<in> set (rev xs)" by simp
  then have "takeWhile (\<lambda>x. x \<noteq> c) (rev xs @ [x]) = takeWhile (\<lambda>x. x \<noteq> c) (rev xs)"
    by (rule takeWhile_append1) simp
  with True show ?thesis by (simp add: after_last_def)
next
  case False
  then have "takeWhile (\<lambda>x. x \<noteq> c) (rev xs @ [x]) = rev xs @ takeWhile (\<lambda>x. x \<noteq> c) [x]"
    by (intro takeWhile_append2) auto
  with False show ?thesis by (simp add: after_last_def)
qed

lemma rfind_Some: "rfind c s = Some i \<Longrightarrow> i < length s \<and> drop (Suc i) s = after_last c s"
proof (induction s arbitrary: i)
  case Nil
  then show ?case by simp
next
  case (Cons x xs)
  show ?case
  proof (cases "rfind c xs")
    case None
    with Cons.prems have "x = c" "i = 0" by (auto split: if_splits)
    moreover from None have "c \<notin> set xs" by (simp add: rfind_None)
    ultimately show ?thesis by (simp add: after_last_Cons)
  next
    case (Some j)
    with Cons.prems have i: "i = Suc j" by simp
    from Some have "c \<in> set xs" using rfind_None[of c xs] by auto
    with Cons.IH[OF Some] i show ?thesis by (simp add: after_last_Cons)
  qed
qed

lemma allowed_file_eq: "allowed_file name = Some (has_allowed_extension name)"
proof (cases "rfind CHR ''.'' name")
  case None
  then show ?thesis
    by (simp add: allowed_file_def has_allowed_extension_def rfind_None)
next
  case (Some i)
  then have "CHR ''.'' \<in> set name" using rfind_None[of "CHR ''.''" name] by auto
  with Some rfind_Some[OF Some] show ?thesis
    by (simp add: allowed_file_def has_allowed_extension_def rsplit1_def index_def
        ALLOWED_EXTENSIONS_def)
qed

lemma re_match_vit_id_unfold:
  "re_match VIT_ID_PATTERN s =
     (9 \<le> length s \<and> list_all (in_class CHR ''0'' CHR ''9'') (take 2 s) \<and>
      list_all (in_class CHR ''A'' CHR ''Z'') (take 3 (drop 2 s)) \<and>
      list_all (in_class CHR ''0'' CHR ''9'') (take 4 (drop 5 s)) \<and>
      (drop 9 s = [] \<or> drop 9 s = [CHR 0x0A]))"
  by (auto simp: re_match_def VIT_ID_PATTERN_def)

lemma vit_id_format_append:
  "length t = 9 \<Longrightarrow> vit_id_format t =
     (list_all (in_class CHR ''0'' CHR ''9'') (take 2 (t @ r)) \<and>
      list_all (in_class CHR ''A'' CHR ''Z'') (take 3 (drop 2 (t @ r))) \<and>
      list_all (in_class CHR ''0'' CHR ''9'') (take 4 (drop 5 (t @ r))))"
  by (simp add: vit_id_format_def)

text \<open>
  What the pattern accepts: the IDs of the format, and those followed by one line feed.
\<close>

lemma re_match_vit_id_iff:
  "re_match VIT_ID_PATTERN s = (vit_id_format s \<or> (\<exists>t. s = t @ [CHR 0x0A] \<and> vit_id_format t))"
proof
  assume m: "re_match VIT_ID_PATTERN s"
  then have len: "9 \<le> length s" by (simp add: re_match_vit_id_unfold)
  define t where "t = take 9 s"
  have s: "s = t @ drop 9 s" by (simp add: t_def)
  have lt: "length t = 9" using len by (simp add: t_def)
  have ft: "vit_id_format t"
    using m vit_id_format_append[OF lt, of "drop 9 s"] s by (simp add: re_match_vit_id_unfold)
  from m consider "drop 9 s = []" | "drop 9 s = [CHR 0x0A]"
    by (auto simp: re_match_vit_id_unfold)
  then show "vit_id_format s \<or> (\<exists>t. s = t @ [CHR 0x0A] \<and> vit_id_format t)"
  proof cases
    case 1
    with s have "s = t" by simp
    with ft show ?thesis by simp
  next
    case 2
    with s have "s = t @ [CHR 0x0A]" by simp
    with ft show ?thesis by blast
  qed
next
  assume "vit_id_format s \<or> (\<exists>t. s = t @ [CHR 0x0A] \<and> vit_id_format t)"
  then show "re_match VIT_ID_PATTERN s"
  proof
    assume "vit_id_format s"
    then show ?thesis by (simp add: re_match_vit_id_unfold vit_id_format_def)
  next
    assume "\<exists>t. s = t @ [CHR 0x0A] \<and> vit_id_format t"
    then obtain t where "s = t @ [CHR 0x0A]" "vit_id_format t" by blast
    then show ?thesis by (simp add: re_match_vit_id_unfold vit_id_format_def)
  qed
qed

section \<open>Facts about the sample data\<close>

lemma allowed_file_dawn: "allowed_file ''dawn.png'' = Some True"
  by (simp add: allowed_file_def rsplit1_def index_def lower_def lower_char_def in_class_def
      ALLOWED_EXTENSIONS_def)

lemma re_match_sample_id: "re_match VIT_ID_PATTERN ''21ABC1234''"
  by (simp add: re_match_def VIT_ID_PATTERN_def in_class_def)

lemma photo_request_is_valid: "photo_request_valid photo_request dawn_png"
  by (simp add: photo_request_valid_def photo_fields_valid_def photo_request_def photo_form_def
      dawn_png_def truthy_def allowed_file_dawn re_match_sample_id)

lemma register_request_is_valid: "register_request_valid register_request"
  by (simp add: register_request_valid_def register_request_def register_form_def truthy_def
      re_match_sample_id)

lemma upload_path_dawn: "upload_path env_ok dawn_png = ''uploads/dawn.png''"
  by (simp add: upload_path_def env_ok_def dawn_png_def secure_filename_def os_path_join_def
      UPLOAD_FOLDER_def normalize_NFKD_def ascii_ignore_def is_ascii_def replace_char_def
      py_split_def is_space_def filename_ascii_ok_def in_class_def py_strip_def)

section \<open>The sanitized name\<close>

lemma py_strip_subset: "set (py_strip chars s) \<subseteq> set s"
proof -
  have "set (py_strip chars s) \<subseteq> set (dropWhile (\<lambda>c. c \<in> set chars) s)"
    by (auto simp: py_strip_def dest: set_dropWhileD)
  also have "\<dots> \<subseteq> set s" by (auto dest: set_dropWhileD)
  finally show ?thesis .
qed

lemma py_strip_prefix:
  "\<exists>r. dropWhile (\<lambda>c. c \<in> set chars) s = py_strip chars s @ r"
proof -
  let ?P = "\<lambda>c. c \<in> set chars"
  let ?t = "dropWhile ?P s"
  have "rev (takeWhile ?P (rev ?t) @ dropWhile ?P (rev ?t)) = rev (rev ?t)"
    by (simp only: takeWhile_dropWhile_id)
  then have "?t = rev (dropWhile ?P (rev ?t)) @ rev (takeWhile ?P (rev ?t))"
    by (simp only: rev_append rev_rev_ident)
  then have "?t = py_strip chars s @ rev (takeWhile ?P (rev ?t))"
    by (simp only: py_strip_def)
  then show ?thesis by blast
qed

lemma py_strip_hd:
  assumes "py_strip chars s \<noteq> []"
  shows "hd (py_strip chars s) \<notin> set chars"
proof -
  obtain r where r: "dropWhile (\<lambda>c. c \<in> set chars) s = py_strip chars s @ r"
    using py_strip_prefix by blast
  with assms have ne: "dropWhile (\<lambda>c. c \<in> set chars) s \<noteq> []" by simp
  from r assms have "hd (py_strip chars s) = hd (dropWhile (\<lambda>c. c \<in> set chars) s)" by simp
  with hd_dropWhile[OF ne] show ?thesis by simp
qed

lemma normalize_keeps_ascii:
  assumes "c \<in> set s" and "is_ascii c"
  shows "c \<in> set (ascii_ignore (normalize_NFKD d s))"
proof -
  from assms have "c \<in> set (if is_ascii c then [c] else d c)" by simp
  with assms(1) have "c \<in> set (normalize_NFKD d s)"
    unfolding normalize_NFKD_def set_concat set_map by blast
  with assms(2) show ?thesis by (simp add: ascii_ignore_def)
qed

lemma secure_filename_eq:
  "secure_filename d name =
     py_strip ''._'' (filter filename_ascii_ok (join ''_'' (py_split
       (replace_char CHR ''/'' CHR '' '' (ascii_ignore (normalize_NFKD d name))))))"
  by (simp only: secure_filename_def Let_def)

lemma secure_filename_chars:
  assumes "c \<in> set (secure_filename d name)"
  shows "filename_ascii_ok c"
proof -
  from assms py_strip_subset have "c \<in> set (filter filename_ascii_ok (join ''_'' (py_split
       (replace_char CHR ''/'' CHR '' '' (ascii_ignore (normalize_NFKD d name))))))"
    unfolding secure_filename_eq by blast
  then show ?thesis by simp
qed

lemma secure_filename_hd:
  assumes "secure_filename d name \<noteq> []"
  shows "hd (secure_filename d name) \<noteq> CHR ''.''"
proof -
  from assms have "hd (secure_filename d name) \<notin> set ''._''"
    unfolding secure_filename_eq by (rule py_strip_hd)
  then show ?thesis by auto
qed

lemma py_strip_nonempty:
  assumes "c \<in> set s" and "c \<notin> set chars"
  shows "py_strip chars s \<noteq> []"
proof -
  let ?P = "\<lambda>c. c \<in> set chars"
  let ?t = "dropWhile ?P s"
  from assms have ne: "?t \<noteq> []" by (auto simp: dropWhile_eq_Nil_conv)
  then have "\<not> ?P (hd ?t)" by (rule hd_dropWhile)
  moreover from ne have "hd ?t \<in> set (rev ?t)" by simp
  ultimately have "dropWhile ?P (rev ?t) \<noteq> []" by (auto simp: dropWhile_eq_Nil_conv)
  then show ?thesis by (simp add: py_strip_def)
qed

lemma set_py_split_aux:
  "set (concat (py_split_aux w s)) = set w \<union> {c \<in> set s. \<not> is_space c}"
  by (induction s arbitrary: w) auto

lemma set_concat_join: "set (concat xs) \<subseteq> set (join sep xs)"
  by (induction sep xs rule: join.induct) auto

lemma join_split_keeps:
  assumes "c \<in> set s" and "\<not> is_space c"
  shows "c \<in> set (join sep (py_split s))"
proof -
  have "set (concat (py_split s)) = {c \<in> set s. \<not> is_space c}"
    unfolding py_split_def by (simp only: set_py_split_aux) simp
  with assms have "c \<in> set (concat (py_split s))" by blast
  with set_concat_join show ?thesis by blast
qed

lemma plain_letter_cases:
  "plain_letter c \<Longrightarrow> c = CHR ''p'' \<or> c = CHR ''P'' \<or> c = CHR ''j'' \<or> c = CHR ''J''"
  by (simp add: plain_letter_def)

lemma plain_letter_props:
  assumes "plain_letter c"
  shows "is_ascii c" "\<not> is_space c" "filename_ascii_ok c" "c \<notin> set ''._''" "c \<noteq> CHR ''/''"
proof -
  from plain_letter_cases[OF assms]
  consider "c = CHR ''p''" | "c = CHR ''P''" | "c = CHR ''j''" | "c = CHR ''J''" by blast
  then have "is_ascii c \<and> \<not> is_space c \<and> filename_ascii_ok c \<and> c \<notin> set ''._'' \<and> c \<noteq> CHR ''/''"
  proof cases
    case 1 then show ?thesis by (simp add: is_ascii_def is_space_def filename_ascii_ok_def in_class_def)
  next
    case 2 then show ?thesis by (simp add: is_ascii_def is_space_def filename_ascii_ok_def in_class_def)
  next
    case 3 then show ?thesis by (simp add: is_ascii_def is_space_def filename_ascii_ok_def in_class_def)
  next
    case 4 then show ?thesis by (simp add: is_ascii_def is_space_def filename_ascii_ok_def in_class_def)
  qed
  then show "is_ascii c" "\<not> is_space c" "filename_ascii_ok c" "c \<notin> set ''._''" "c \<noteq> CHR ''/''"
    by blast+
qed

lemma replace_char_keeps:
  assumes "c \<in> set s" and "c \<noteq> a"
  shows "c \<in> set (replace_char a b s)"
proof -
  from assms have "c \<in> (\<lambda>x. if x = a then b else x) ` set s" by (intro image_eqI[of _ _ c]) simp_all
  then show ?thesis by (simp add: replace_char_def)
qed

lemma secure_filename_nonempty:
  assumes "c \<in> set name" and "plain_letter c"
  shows "secure_filename d name \<noteq> []"
proof -
  note p = plain_letter_props[OF assms(2)]
  let ?a = "ascii_ignore (normalize_NFKD d name)"
  let ?b = "replace_char CHR ''/'' CHR '' '' ?a"
  have "c \<in> set ?a" using assms(1) p(1) by (rule normalize_keeps_ascii)
  then have "c \<in> set ?b" using p(5) by (rule replace_char_keeps)
  then have "c \<in> set (join ''_'' (py_split ?b))" using p(2) by (rule join_split_keeps)
  then have "c \<in> set (filter filename_ascii_ok (join ''_'' (py_split ?b)))" using p(3) by simp
  then have "py_strip ''._'' (filter filename_ascii_ok (join ''_'' (py_split ?b))) \<noteq> []"
    using p(4) by (rule py_strip_nonempty)
  then show ?thesis unfolding secure_filename_eq .
qed

lemma lower_char_cases:
  "lower_char c = c \<or> (in_class CHR ''A'' CHR ''Z'' c \<and> (of_char (lower_char c) :: nat) = of_char c + 32)"
proof (cases "in_class CHR ''A'' CHR ''Z'' c")
  case True
  then have "(of_char c :: nat) + 32 < 256" by (simp add: in_class_def)
  then have "(of_char (char_of ((of_char c :: nat) + 32)) :: nat) = of_char c + 32"
    by (simp only: of_char_of mod_less)
  with True show ?thesis by (simp add: lower_char_def)
next
  case False
  then show ?thesis by (simp add: lower_char_def)
qed

lemma of_char_eq_80: "(of_char c :: nat) = 80 \<Longrightarrow> c = CHR ''P''"
proof -
  assume "(of_char c :: nat) = 80"
  then have "(of_char c :: nat) = of_char CHR ''P''" by simp
  then show ?thesis by (simp only: of_char_eq_iff)
qed

lemma of_char_eq_74: "(of_char c :: nat) = 74 \<Longrightarrow> c = CHR ''J''"
proof -
  assume "(of_char c :: nat) = 74"
  then have "(of_char c :: nat) = of_char CHR ''J''" by simp
  then show ?thesis by (simp only: of_char_eq_iff)
qed

lemma lower_char_p: "lower_char c = CHR ''p'' \<Longrightarrow> c = CHR ''p'' \<or> c = CHR ''P''"
  using lower_char_cases[of c] of_char_eq_80[of c] by auto

lemma lower_char_j: "lower_char c = CHR ''j'' \<Longrightarrow> c = CHR ''j'' \<or> c = CHR ''J''"
  using lower_char_cases[of c] of_char_eq_74[of c] by auto

lemma of_char_nat_eqD: "(of_char c :: nat) = of_char d \<Longrightarrow> c = d"
  by (simp only: of_char_eq_iff)

lemma lower_char_eq_iff:
  assumes l: "\<not> in_class CHR ''A'' CHR ''Z'' l"
      and u: "in_class CHR ''A'' CHR ''Z'' u"
      and lu: "(of_char u :: nat) + 32 = of_char l"
  shows "(lower_char c = l) = (c = l \<or> c = u)"
proof
  assume a: "lower_char c = l"
  from lower_char_cases[of c] show "c = l \<or> c = u"
  proof
    assume "lower_char c = c"
    with a show ?thesis by simp
  next
    assume "in_class CHR ''A'' CHR ''Z'' c \<and> (of_char (lower_char c) :: nat) = of_char c + 32"
    with a lu have "(of_char c :: nat) = of_char u" by simp
    then have "c = u" by (rule of_char_nat_eqD)
    then show ?thesis by simp
  qed
next
  assume "c = l \<or> c = u"
  then show "lower_char c = l"
  proof
    assume "c = l"
    with l show ?thesis by (simp add: lower_char_def)
  next
    assume "c = u"
    with u have "lower_char c = char_of ((of_char u :: nat) + 32)" by (simp add: lower_char_def)
    also have "\<dots> = char_of (of_char l :: nat)" by (simp only: lu)
    also have "\<dots> = l" by (rule char_of_char)
    finally show ?thesis .
  qed
qed

lemma lower_char_letters:
  "(lower_char c = CHR ''p'') = same_letter c CHR ''p''"
  "(lower_char c = CHR ''n'') = same_letter c CHR ''n''"
  "(lower_char c = CHR ''g'') = same_letter c CHR ''g''"
  "(lower_char c = CHR ''j'') = same_letter c CHR ''j''"
  "(lower_char c = CHR ''e'') = same_letter c CHR ''e''"
proof -
  have "(lower_char c = CHR ''p'') = (c = CHR ''p'' \<or> c = CHR ''P'')"
    by (rule lower_char_eq_iff) (simp_all add: in_class_def)
  then show "(lower_char c = CHR ''p'') = same_letter c CHR ''p''"
    by (simp add: same_letter_def)
  have "(lower_char c = CHR ''n'') = (c = CHR ''n'' \<or> c = CHR ''N'')"
    by (rule lower_char_eq_iff) (simp_all add: in_class_def)
  then show "(lower_char c = CHR ''n'') = same_letter c CHR ''n''"
    by (simp add: same_letter_def)
  have "(lower_char c = CHR ''g'') = (c = CHR ''g'' \<or> c = CHR ''G'')"
    by (rule lower_char_eq_iff) (simp_all add: in_class_def)
  then show "(lower_char c = CHR ''g'') = same_letter c CHR ''g''"
    by (simp add: same_letter_def)
  have "(lower_char c = CHR ''j'') = (c = CHR ''j'' \<or> c = CHR ''J'')"
    by (rule lower_char_eq_iff) (simp_all add: in_class_def)
  then show "(lower_char c = CHR ''j'') = same_letter c CHR ''j''"
    by (simp add: same_letter_def)
  have "(lower_char c = CHR ''e'') = (c = CHR ''e'' \<or> c = CHR ''E'')"
    by (rule lower_char_eq_iff) (simp_all add: in_class_def)
  then show "(lower_char c = CHR ''e'') = same_letter c CHR ''e''"
    by (simp add: same_letter_def)
qed

lemma lower_eq_Cons: "(lower s = l # w) = (\<exists>c t. s = c # t \<and> lower_char c = l \<and> lower t = w)"
  by (cases s) (simp_all add: lower_def)

lemma lower_eq_Nil: "(lower s = []) = (s = [])"
  by (simp add: lower_def)

lemma lower_png: "(lower s = ''png'') = list_all2 same_letter s ''png''"
  by (simp only: lower_eq_Cons lower_eq_Nil list_all2_Cons2 list_all2_Nil2 lower_char_letters)

lemma lower_jpg: "(lower s = ''jpg'') = list_all2 same_letter s ''jpg''"
  by (simp only: lower_eq_Cons lower_eq_Nil list_all2_Cons2 list_all2_Nil2 lower_char_letters)

lemma lower_jpeg: "(lower s = ''jpeg'') = list_all2 same_letter s ''jpeg''"
  by (simp only: lower_eq_Cons lower_eq_Nil list_all2_Cons2 list_all2_Nil2 lower_char_letters)

lemma has_allowed_extension_iff: "has_allowed_extension name = extension_accepted name"
  by (simp add: has_allowed_extension_def extension_accepted_def lower_png lower_jpg lower_jpeg)

lemma after_last_subset: "set (after_last c s) \<subseteq> set s"
  using set_takeWhileD by (fastforce simp: after_last_def)

lemma allowed_extension_letter:
  assumes "has_allowed_extension name"
  shows "\<exists>c \<in> set name. plain_letter c"
proof -
  let ?ext = "after_last CHR ''.'' name"
  from assms have "lower ?ext \<in> {''png'', ''jpg'', ''jpeg''}"
    by (simp add: has_allowed_extension_def)
  then obtain x xs where ext: "?ext = x # xs" and "lower_char x = CHR ''p'' \<or> lower_char x = CHR ''j''"
    by (cases ?ext) (auto simp: lower_def)
  then have "plain_letter x" using lower_char_p[of x] lower_char_j[of x]
    by (auto simp: plain_letter_def)
  moreover have "x \<in> set name" using after_last_subset[of "CHR ''.''" name] ext by auto
  ultimately show ?thesis by blast
qed

lemma os_path_join_inside:
  assumes "name \<noteq> []" and "CHR ''/'' \<notin> set name" and "hd name \<noteq> CHR ''.''"
  shows "os_path_join UPLOAD_FOLDER name = ''uploads/'' @ name"
    and "directly_inside UPLOAD_FOLDER (os_path_join UPLOAD_FOLDER name)"
proof -
  from assms(1,2) have "hd name \<noteq> CHR ''/''" by (cases name) auto
  then show j: "os_path_join UPLOAD_FOLDER name = ''uploads/'' @ name"
    by (simp add: os_path_join_def UPLOAD_FOLDER_def)
  from assms have "name \<noteq> ''.''" "name \<noteq> ''..''" by auto
  with assms j show "directly_inside UPLOAD_FOLDER (os_path_join UPLOAD_FOLDER name)"
    by (simp add: directly_inside_def UPLOAD_FOLDER_def)
qed

section \<open>The handlers, case by case\<close>

lemma found_find: "found (find P xs) = list_ex P xs"
  by (induction xs) (auto simp: found_def)

lemma register_commits:
  assumes "register_request_valid req"
      and "\<not> list_ex (\<lambda>u. u_vit_id u = the (form req ''vitId'')) (users st)"
      and "\<not> list_ex (\<lambda>u. u_email u = the (form req ''email'')) (users st)"
      and "commit_exc ev = None"
  shows "register ev st req =
           ((''Registration successful!'', 201), st\<lparr>users := users st @ [new_user_row st req]\<rparr>)"
  using assms
  by (simp add: register_def register_request_valid_def Let_def filter_by_vit_id_first_def
      filter_by_email_first_def found_find session_commit_def new_user_row_def)

lemma register_created:
  assumes "snd (fst (register ev st req)) = 201"
  shows "register_request_valid req \<and>
         \<not> list_ex (\<lambda>u. u_vit_id u = the (form req ''vitId'')) (users st) \<and>
         \<not> list_ex (\<lambda>u. u_email u = the (form req ''email'')) (users st) \<and>
         snd (register ev st req) = st\<lparr>users := users st @ [new_user_row st req]\<rparr>"
  using assms
  by (simp add: register_def register_request_valid_def Let_def filter_by_vit_id_first_def
      filter_by_email_first_def found_find session_commit_def new_user_row_def
      split: if_splits option.splits)

lemma register_state_cases:
  "snd (register ev st req) = st \<or>
   (\<not> list_ex (\<lambda>u. u_vit_id u = the (form req ''vitId'')) (users st) \<and>
    \<not> list_ex (\<lambda>u. u_email u = the (form req ''email'')) (users st) \<and>
    snd (register ev st req) = st\<lparr>users := users st @ [new_user_row st req]\<rparr>)"
  by (simp add: register_def Let_def filter_by_vit_id_first_def
      filter_by_email_first_def found_find session_commit_def new_user_row_def
      split: if_splits option.splits)

lemma already_registered_iff:
  assumes "form req ''vitId'' = Some v" and "form req ''email'' = Some e"
  shows "already_registered st req =
         (list_ex (\<lambda>u. u_vit_id u = v) (users st) \<or> list_ex (\<lambda>u. u_email u = e) (users st))"
  using assms by (auto simp: already_registered_def list_ex_iff)

lemma valid_fields_Some:
  assumes "register_request_valid req"
  shows "\<exists>v e. form req ''vitId'' = Some v \<and> form req ''email'' = Some e"
  using assms by (auto simp: register_request_valid_def truthy_def split: option.splits)

lemma register_conflict:
  assumes "register_request_valid req" and "already_registered st req"
  shows "register ev st req = ((''User with this VIT ID or Email already exists!'', 409), st)"
proof -
  from valid_fields_Some[OF assms(1)] obtain v e
    where ve: "form req ''vitId'' = Some v" "form req ''email'' = Some e" by blast
  with assms(2) have "list_ex (\<lambda>u. u_vit_id u = v) (users st) \<or> list_ex (\<lambda>u. u_email u = e) (users st)"
    by (simp add: already_registered_iff)
  with assms(1) ve show ?thesis
    by (simp add: register_def register_request_valid_def Let_def filter_by_vit_id_first_def
      filter_by_email_first_def found_find)
qed

lemma register_duplicate_no_row:
  assumes "already_registered st req"
  shows "snd (register ev st req) = st"
proof (cases "register_request_valid req")
  case True
  with assms show ?thesis by (simp add: register_conflict)
next
  case False
  then show ?thesis
    by (simp add: register_def register_request_valid_def Let_def)
qed

lemma register_invalid_400:
  assumes "\<not> register_request_valid req"
  shows "snd (fst (register ev st req)) = 400 \<and> snd (register ev st req) = st"
  using assms by (auto simp: register_def register_request_valid_def Let_def)

lemma unique_users_append:
  assumes "unique_users st"
      and "\<not> list_ex (\<lambda>u. u_vit_id u = u_vit_id r) (users st)"
      and "\<not> list_ex (\<lambda>u. u_email u = u_email r) (users st)"
  shows "unique_users (st\<lparr>users := users st @ [r]\<rparr>)"
  using assms by (auto simp: unique_users_def list_ex_iff)

lemma register_unique_users:
  assumes "unique_users st"
  shows "unique_users (snd (register ev st req))"
  using register_state_cases[of ev st req] assms
  by (auto intro!: unique_users_append simp: new_user_row_def)


lemma submit_photo_unfold:
  "submit_photo ev st req =
     (if \<not> list_all truthy [form req ''fullName'', form req ''vitId'', form req ''photoTitle'',
                             form req ''theme'']
      then ((''Required fields are missing!'', 400), st)
      else if \<not> re_match VIT_ID_PATTERN (the (form req ''vitId''))
      then ((''Invalid VIT ID format.'', 400), st)
      else case files req ''photoFile'' of
             None \<Rightarrow> ((''No photo file part in the request!'', 400), st)
           | Some f \<Rightarrow>
               if filename f = [] then ((''No selected photo file!'', 400), st)
               else if \<not> has_allowed_extension (filename f)
               then ((''Invalid file type. Only PNG, JPG, JPEG are allowed!'', 400), st)
               else case save_exc ev of
                      Some e \<Rightarrow> ((''Error saving file: '' @ e, 500), st)
                    | None \<Rightarrow>
                        (case commit_exc ev of
                           Some e \<Rightarrow>
                             ((''Error saving submission to database: '' @ e, 500),
                              st\<lparr>disk := (disk st)(upload_path ev f := None)\<rparr>)
                         | None \<Rightarrow>
                             ((''Photo submitted successfully!'', 201),
                              st\<lparr>disk := (disk st)(upload_path ev f \<mapsto> content f),
                                 photos := photos st @ [new_photo_row ev st req f]\<rparr>)))"
  by (simp add: submit_photo_def Let_def allowed_file_eq file_save_def session_commit_def
      os_path_exists_def os_remove_def upload_path_def new_photo_row_def split: option.splits)

lemma submit_photo_commits:
  assumes "photo_request_valid req f"
      and "save_exc ev = None"
      and "commit_exc ev = None"
  shows "submit_photo ev st req =
           ((''Photo submitted successfully!'', 201),
            st\<lparr>disk := (disk st)(upload_path ev f \<mapsto> content f),
               photos := photos st @ [new_photo_row ev st req f]\<rparr>)"
  using assms
  by (simp add: submit_photo_unfold photo_request_valid_def photo_fields_valid_def allowed_file_eq)

lemma submit_photo_created:
  assumes "snd (fst (submit_photo ev st req)) = 201"
  shows "\<exists>f. photo_request_valid req f \<and>
             snd (submit_photo ev st req) =
               st\<lparr>disk := (disk st)(upload_path ev f \<mapsto> content f),
                  photos := photos st @ [new_photo_row ev st req f]\<rparr>"
  using assms
  by (auto simp: submit_photo_unfold photo_request_valid_def photo_fields_valid_def allowed_file_eq
      split: if_splits option.splits)

lemma submit_photo_ignores_users:
  "submit_photo ev (st\<lparr>users := us\<rparr>) req =
     (fst (submit_photo ev st req), (snd (submit_photo ev st req))\<lparr>users := us\<rparr>)"
  by (simp add: submit_photo_unfold new_photo_row_def split: option.splits)

lemma submit_photo_rejects_extension:
  assumes "files req ''photoFile'' = Some f" and "filename f \<noteq> []"
      and "\<not> has_allowed_extension (filename f)"
  shows "snd (fst (submit_photo ev st req)) = 400 \<and> snd (submit_photo ev st req) = st"
  using assms by (simp add: submit_photo_unfold)

lemma submit_photo_invalid_type_iff:
  assumes "photo_fields_valid req" and "files req ''photoFile'' = Some f" and "filename f \<noteq> []"
  shows "(fst (submit_photo ev st req) = (''Invalid file type. Only PNG, JPG, JPEG are allowed!'', 400))
         = (\<not> has_allowed_extension (filename f))"
  using assms by (simp add: submit_photo_unfold photo_fields_valid_def split: option.splits)

lemma submit_photo_no_file:
  assumes "photo_fields_valid req"
      and "case files req ''photoFile'' of None \<Rightarrow> True | Some f \<Rightarrow> filename f = []"
  shows "snd (fst (submit_photo ev st req)) = 400 \<and> snd (submit_photo ev st req) = st"
  using assms by (auto simp: submit_photo_unfold photo_fields_valid_def split: option.splits)

lemma submit_photo_users: "users (snd (submit_photo ev st req)) = users st"
  by (simp add: submit_photo_unfold split: option.splits)

section \<open>Failures after validation in \<open>submit_photo\<close>\<close>

text \<open>
  C1. A photo submission passes every validation and its file is saved. If the commit
  of the new row then raises, the answer is 500, the file just written is removed (nothing
  is left at its path), and the tables are those of before the request, which is what
  the roll-back of the session leaves; no other file is touched.
\<close>

theorem submit_photo_commit_failure_removes_file:
  assumes "photo_request_valid req f"
      and "save_exc ev = None"
      and "commit_exc ev = Some e"
  shows "fst (submit_photo ev st req) = (''Error saving submission to database: '' @ e, 500) \<and>
         disk (snd (submit_photo ev st req)) (upload_path ev f) = None \<and>
         users (snd (submit_photo ev st req)) = users st \<and>
         photos (snd (submit_photo ev st req)) = photos st \<and>
         snd (submit_photo ev st req) = st\<lparr>disk := (disk st)(upload_path ev f := None)\<rparr>"
  using assms
  by (simp add: submit_photo_def photo_request_valid_def photo_fields_valid_def file_save_def
      session_commit_def os_path_exists_def os_remove_def upload_path_def Let_def)

theorem submit_photo_commit_failure_removes_file_witness:
  "photo_request_valid photo_request dawn_png \<and>
   save_exc env_commit_fails = None \<and>
   commit_exc env_commit_fails = Some ''database is locked'' \<and>
   fst (submit_photo env_commit_fails state_empty photo_request) =
     (''Error saving submission to database: database is locked'', 500) \<and>
   disk (snd (submit_photo env_commit_fails state_empty photo_request)) ''uploads/dawn.png'' = None \<and>
   photos (snd (submit_photo env_commit_fails state_empty photo_request)) = []"
  using submit_photo_commit_failure_removes_file
          [of photo_request dawn_png env_commit_fails "''database is locked''" state_empty]
        upload_path_dawn
  by (simp add: photo_request_is_valid env_commit_fails_def env_ok_def state_empty_def
      upload_path_def)

text \<open>
  C10. A photo submission passes every validation and saving its file raises. The answer
  is 500 with the message of the exception, and the handler returns at once: no row is
  added, and the stored state (tables and files) is the one of before the request.
\<close>

theorem submit_photo_save_failure:
  assumes "photo_request_valid req f"
      and "save_exc ev = Some e"
  shows "submit_photo ev st req = ((''Error saving file: '' @ e, 500), st)"
  using assms
  by (simp add: submit_photo_def photo_request_valid_def photo_fields_valid_def file_save_def)

theorem submit_photo_save_failure_witness:
  "photo_request_valid photo_request dawn_png \<and>
   save_exc env_save_fails = Some ''No space left on device'' \<and>
   submit_photo env_save_fails state_empty photo_request =
     ((''Error saving file: No space left on device'', 500), state_empty)"
  using submit_photo_save_failure
          [of photo_request dawn_png env_save_fails "''No space left on device''" state_empty]
  by (simp add: photo_request_is_valid env_save_fails_def)

section \<open>Validation in \<open>register\<close>\<close>

text \<open>
  C7. A registration has its five fields present and a password different from its
  confirmation. The answer is 400 and the stored state is unchanged: no User row is
  created.
\<close>

theorem register_password_mismatch:
  assumes "list_all truthy [form req ''fullName'', form req ''vitId'', form req ''email'',
                            form req ''password'', form req ''confirmPassword'']"
      and "form req ''password'' \<noteq> form req ''confirmPassword''"
  shows "register ev st req = ((''Passwords do not match!'', 400), st)"
  using assms by (simp add: register_def)

theorem register_password_mismatch_witness:
  "list_all truthy [register_form ''fullName'', register_form ''vitId'', register_form ''email'',
                    register_form ''password'', Some ''secreT''] \<and>
   register_form ''password'' \<noteq> Some ''secreT'' \<and>
   register env_ok state_empty
     \<lparr>form = register_form(''confirmPassword'' \<mapsto> ''secreT''), files = Map.empty\<rparr> =
     ((''Passwords do not match!'', 400), state_empty)"
  using register_password_mismatch
          [of "\<lparr>form = register_form(''confirmPassword'' \<mapsto> ''secreT''), files = Map.empty\<rparr>"
              env_ok state_empty]
  by (simp add: register_form_def truthy_def)

section \<open>More facts about the sample data\<close>

lemma re_match_newline_id: "re_match VIT_ID_PATTERN newline_id"
  by (simp add: re_match_vit_id_unfold newline_id_def in_class_def)

lemma newline_id_not_format: "\<not> vit_id_format newline_id"
  by (simp add: vit_id_format_def newline_id_def)

lemma newline_id_nonempty: "newline_id \<noteq> []"
  by (simp add: newline_id_def)

lemma register_request_newline_valid: "register_request_valid register_request_newline"
proof -
  have "the (form register_request_newline ''vitId'') = newline_id"
    by (simp add: register_request_newline_def)
  then show ?thesis
    using re_match_newline_id newline_id_nonempty
    by (simp add: register_request_valid_def register_request_newline_def register_form_def
        truthy_def)
qed

lemma photo_request_newline_valid: "photo_request_valid photo_request_newline dawn_png"
proof -
  have "the (form photo_request_newline ''vitId'') = newline_id"
    by (simp add: photo_request_newline_def)
  moreover have "allowed_file (filename dawn_png) = Some True"
    by (simp add: dawn_png_def allowed_file_dawn)
  moreover have "filename dawn_png \<noteq> []" by (simp add: dawn_png_def)
  ultimately show ?thesis
    using re_match_newline_id newline_id_nonempty
    by (simp add: photo_request_valid_def photo_fields_valid_def photo_request_newline_def
        photo_form_def truthy_def)
qed

lemma register_sample:
  "register env_ok state_empty register_request = ((''Registration successful!'', 201), state_asha)"
proof -
  have "register env_ok state_empty register_request =
          ((''Registration successful!'', 201),
           state_empty\<lparr>users := users state_empty @ [new_user_row state_empty register_request]\<rparr>)"
    by (rule register_commits) (simp_all add: register_request_is_valid state_empty_def env_ok_def)
  then show ?thesis
    by (simp add: state_empty_def state_asha_def user_asha_def new_user_row_def next_id_def
        register_request_def register_form_def)
qed

lemma secure_filename_traversal:
  "secure_filename (decomp env_ok) ''../../etc/passwd.png'' = ''etc_passwd.png''"
  by (simp add: env_ok_def secure_filename_def normalize_NFKD_def ascii_ignore_def is_ascii_def
      replace_char_def py_split_def is_space_def filename_ascii_ok_def in_class_def py_strip_def)

lemma has_allowed_extension_traversal: "has_allowed_extension ''../../etc/passwd.png''"
  by (simp add: has_allowed_extension_def after_last_def lower_def lower_char_def in_class_def)

lemma photo_fields_valid_sample: "photo_fields_valid \<lparr>form = photo_form, files = fs\<rparr>"
  by (simp add: photo_fields_valid_def photo_form_def truthy_def re_match_sample_id)

lemma register_commit_failure:
  assumes "register_request_valid req"
      and "\<not> list_ex (\<lambda>u. u_vit_id u = the (form req ''vitId'')) (users st)"
      and "\<not> list_ex (\<lambda>u. u_email u = the (form req ''email'')) (users st)"
      and "commit_exc ev = Some e"
  shows "register ev st req = ((''Error registering user: '' @ e, 500), st)"
  using assms
  by (simp add: register_def register_request_valid_def Let_def filter_by_vit_id_first_def
      filter_by_email_first_def found_find session_commit_def)

section \<open>Registration\<close>

text \<open>
  C2. The claim as it is written does not hold: a registration with five valid fields
  and a fresh ID and email is answered 500, and no row is created, when the commit of the
  new row raises.
\<close>

theorem register_valid_request_commit_failure:
  "register_request_valid register_request \<and>
   \<not> already_registered state_empty register_request \<and>
   fst (register env_commit_fails state_empty register_request) =
     (''Error registering user: database is locked'', 500) \<and>
   users (snd (register env_commit_fails state_empty register_request)) = []"
proof -
  have "register env_commit_fails state_empty register_request =
          ((''Error registering user: '' @ ''database is locked'', 500), state_empty)"
    by (rule register_commit_failure)
       (simp_all add: register_request_is_valid state_empty_def env_commit_fails_def)
  then show ?thesis
    by (simp add: register_request_is_valid already_registered_def state_empty_def)
qed

text \<open>
  C2, amended. A registration has its five fields present, equal passwords, an ID that
  matches the pattern, and no stored User has its ID or its email. When the commit does
  not raise, the answer is 201 and exactly one row is appended to the User table: it
  holds the submitted full name, ID, email and password (as submitted, in plaintext) and
  the next \<open>id\<close>; nothing else changes.
\<close>

theorem register_creates_one_user:
  assumes "form req ''fullName'' = Some full_name" and "full_name \<noteq> []"
      and "form req ''vitId'' = Some vit_id" and "re_match VIT_ID_PATTERN vit_id"
      and "form req ''email'' = Some email" and "email \<noteq> []"
      and "form req ''password'' = Some password" and "password \<noteq> []"
      and "form req ''confirmPassword'' = Some password"
      and "\<forall>u \<in> set (users st). u_vit_id u \<noteq> vit_id \<and> u_email u \<noteq> email"
      and "commit_exc ev = None"
  shows "register ev st req =
           ((''Registration successful!'', 201),
            st\<lparr>users := users st @
                 [\<lparr>u_id = Some (next_id (map u_id (users st))), u_full_name = full_name,
                   u_vit_id = vit_id, u_email = email, u_password = password\<rparr>]\<rparr>)"
proof -
  from assms(4) have "vit_id \<noteq> []" by (auto simp: re_match_vit_id_unfold)
  with assms have valid: "register_request_valid req"
    by (simp add: register_request_valid_def truthy_def)
  from assms(3,5,10) have fresh:
    "\<not> list_ex (\<lambda>u. u_vit_id u = the (form req ''vitId'')) (users st)"
    "\<not> list_ex (\<lambda>u. u_email u = the (form req ''email'')) (users st)"
    by (auto simp: list_ex_iff)
  from register_commits[OF valid fresh assms(11)] assms show ?thesis
    by (simp add: new_user_row_def)
qed

theorem register_creates_one_user_witness:
  "re_match VIT_ID_PATTERN ''21ABC1234'' \<and> commit_exc env_ok = None \<and>
   register env_ok state_empty register_request =
     ((''Registration successful!'', 201),
      state_empty\<lparr>users := [\<lparr>u_id = Some 1, u_full_name = ''Asha Rao'', u_vit_id = ''21ABC1234'',
                               u_email = ''asha@vit.in'', u_password = ''secret''\<rparr>]\<rparr>)"
  using register_creates_one_user
          [of register_request "''Asha Rao''" "''21ABC1234''" "''asha@vit.in''" "''secret''"
              state_empty env_ok]
  by (simp add: re_match_sample_id register_request_def register_form_def state_empty_def
      env_ok_def next_id_def)

text \<open>
  C3. The claim as it is written does not hold: a registration whose ID and email are
  those of a stored User, but whose passwords differ, is answered 400 and not 409, since
  the passwords are compared before the table is searched.
\<close>

theorem register_duplicate_password_mismatch:
  "already_registered state_asha register_request_mismatch \<and>
   register env_ok state_asha register_request_mismatch =
     ((''Passwords do not match!'', 400), state_asha)"
  by (simp add: already_registered_def state_asha_def user_asha_def register_request_mismatch_def
      register_form_def register_def truthy_def)

text \<open>
  C3, amended. Both handlers keep the IDs and the emails of the User table unique. A
  registration whose ID or email is that of a stored User adds no row (the stored state
  is unchanged); it is answered 409 when it passes the checks made before (five fields
  present, equal passwords, an ID that matches the pattern) and 400 otherwise. So after
  a registration answered 201, any further registration with the same ID leaves the
  state as it is, is answered 409 when it passes those checks and 400 otherwise, and
  exactly one row has that ID.
\<close>

theorem register_keeps_users_unique:
  "(unique_users st \<longrightarrow>
      unique_users (snd (register ev st req)) \<and> unique_users (snd (submit_photo ev st req))) \<and>
   (already_registered st req \<longrightarrow>
      snd (register ev st req) = st \<and>
      (register_request_valid req \<longrightarrow>
         fst (register ev st req) = (''User with this VIT ID or Email already exists!'', 409)) \<and>
      (\<not> register_request_valid req \<longrightarrow> snd (fst (register ev st req)) = 400)) \<and>
   (snd (fst (register ev st req)) = 201 \<and> form reqb ''vitId'' = form req ''vitId'' \<longrightarrow>
      snd (register evb (snd (register ev st req)) reqb) = snd (register ev st req) \<and>
      (register_request_valid reqb \<longrightarrow>
         snd (fst (register evb (snd (register ev st req)) reqb)) = 409) \<and>
      (\<not> register_request_valid reqb \<longrightarrow>
         snd (fst (register evb (snd (register ev st req)) reqb)) = 400) \<and>
      length (filter (\<lambda>u. form req ''vitId'' = Some (u_vit_id u))
                (users (snd (register evb (snd (register ev st req)) reqb)))) = 1)"
proof (intro conjI impI)
  assume "unique_users st"
  then show "unique_users (snd (register ev st req))" by (rule register_unique_users)
next
  assume "unique_users st"
  then show "unique_users (snd (submit_photo ev st req))"
    by (simp add: unique_users_def submit_photo_users)
next
  assume "already_registered st req"
  then show "snd (register ev st req) = st" by (rule register_duplicate_no_row)
next
  assume "already_registered st req" and "register_request_valid req"
  then show "fst (register ev st req) = (''User with this VIT ID or Email already exists!'', 409)"
    by (simp add: register_conflict)
next
  assume "\<not> register_request_valid req"
  then show "snd (fst (register ev st req)) = 400" by (simp add: register_invalid_400)
next
  assume a: "snd (fst (register ev st req)) = 201 \<and> form reqb ''vitId'' = form req ''vitId''"
  let ?st1 = "snd (register ev st req)"
  from a register_created[of ev st req]
  have valid: "register_request_valid req"
    and fresh: "\<not> list_ex (\<lambda>u. u_vit_id u = the (form req ''vitId'')) (users st)"
    and st1: "?st1 = st\<lparr>users := users st @ [new_user_row st req]\<rparr>" by simp_all
  from valid_fields_Some[OF valid] obtain v where v: "form req ''vitId'' = Some v" by blast
  with a st1 have dup: "already_registered ?st1 reqb"
    by (simp add: already_registered_def new_user_row_def)
  then have same: "snd (register evb ?st1 reqb) = ?st1" by (rule register_duplicate_no_row)
  from fresh v have "filter (\<lambda>u. form req ''vitId'' = Some (u_vit_id u)) (users st) = []"
    by (auto simp: list_ex_iff filter_empty_conv)
  with v st1 have one: "length (filter (\<lambda>u. form req ''vitId'' = Some (u_vit_id u)) (users ?st1)) = 1"
    by (simp add: new_user_row_def)
  show "snd (register evb ?st1 reqb) = ?st1" by (rule same)
  show "length (filter (\<lambda>u. form req ''vitId'' = Some (u_vit_id u))
                  (users (snd (register evb ?st1 reqb)))) = 1"
    using same one by simp
  show "snd (fst (register evb ?st1 reqb)) = 409" if "register_request_valid reqb"
    using dup that by (simp add: register_conflict)
  show "snd (fst (register evb ?st1 reqb)) = 400" if "\<not> register_request_valid reqb"
    using that by (simp add: register_invalid_400)
qed

theorem register_keeps_users_unique_witness:
  "unique_users state_empty \<and>
   unique_users (snd (register env_ok state_empty register_request)) \<and>
   snd (fst (register env_ok state_empty register_request)) = 201 \<and>
   register_request_valid register_request \<and>
   already_registered state_asha register_request \<and>
   fst (register env_ok state_asha register_request) =
     (''User with this VIT ID or Email already exists!'', 409) \<and>
   snd (register env_ok state_asha register_request) = state_asha \<and>
   length (filter (\<lambda>u. Some ''21ABC1234'' = Some (u_vit_id u))
             (users (snd (register env_ok state_asha register_request)))) = 1 \<and>
   already_registered state_asha register_request_mismatch \<and>
   \<not> register_request_valid register_request_mismatch \<and>
   snd (fst (register env_ok state_asha register_request_mismatch)) = 400 \<and>
   snd (register env_ok state_asha register_request_mismatch) = state_asha"
proof -
  have u: "unique_users state_empty" by (simp add: unique_users_def state_empty_def)
  have d: "already_registered state_asha register_request"
    by (simp add: already_registered_def state_asha_def user_asha_def register_request_def
        register_form_def)
  have v: "form register_request ''vitId'' = Some ''21ABC1234''"
    by (simp add: register_request_def register_form_def)
  have dm: "already_registered state_asha register_request_mismatch"
    by (simp add: already_registered_def state_asha_def user_asha_def
        register_request_mismatch_def register_form_def)
  have nm: "\<not> register_request_valid register_request_mismatch"
    by (simp add: register_request_valid_def register_request_mismatch_def register_form_def)
  from register_keeps_users_unique
         [where st = state_empty and ev = env_ok and req = register_request
            and reqb = register_request and evb = env_ok]
       register_keeps_users_unique
         [where st = state_asha and ev = env_ok and req = register_request
            and reqb = register_request and evb = env_ok]
       register_keeps_users_unique
         [where st = state_asha and ev = env_ok and req = register_request_mismatch
            and reqb = register_request and evb = env_ok]
       u d v dm nm register_request_is_valid
  show ?thesis by (simp add: register_sample)
qed

section \<open>The format of the ID\<close>

text \<open>
  What both handlers do with the ID: with the fields before it accepted, the answer is
  the 400 of the invalid format exactly when \<open>re.match\<close> finds no match.
\<close>

lemma register_invalid_id_iff:
  assumes "list_all truthy [form req ''fullName'', form req ''vitId'', form req ''email'',
                            form req ''password'', form req ''confirmPassword'']"
      and "form req ''password'' = form req ''confirmPassword''"
  shows "(fst (register ev st req) = (''Invalid VIT ID format.'', 400)) =
         (\<not> re_match VIT_ID_PATTERN (the (form req ''vitId'')))"
  using assms
  by (simp add: register_def Let_def session_commit_def split: sum.splits option.splits)

lemma submit_photo_invalid_id_iff:
  assumes "list_all truthy [form req ''fullName'', form req ''vitId'', form req ''photoTitle'',
                            form req ''theme'']"
  shows "(fst (submit_photo ev st req) = (''Invalid VIT ID format.'', 400)) =
         (\<not> re_match VIT_ID_PATTERN (the (form req ''vitId'')))"
  using assms by (simp add: submit_photo_unfold split: option.splits)

lemma abc123_rejected: "\<not> re_match VIT_ID_PATTERN ''abc123''"
  by (simp add: re_match_vit_id_unfold)

text \<open>
  C4. The pattern ends with \<open>$\<close>, which also matches just before a line feed that ends
  the string. An ID of two digits, three uppercase letters and four digits followed by a
  line feed is not of the format, yet \<open>register\<close> answers 201 and stores it, and
  \<open>submit_photo\<close> answers 201 as well.
\<close>

theorem register_accepts_newline_id:
  "\<not> vit_id_format newline_id \<and>
   fst (register env_ok state_empty register_request_newline) =
     (''Registration successful!'', 201) \<and>
   map u_vit_id (users (snd (register env_ok state_empty register_request_newline))) =
     [newline_id] \<and>
   fst (submit_photo env_ok state_empty photo_request_newline) =
     (''Photo submitted successfully!'', 201)"
proof -
  have r: "register env_ok state_empty register_request_newline =
          ((''Registration successful!'', 201),
           state_empty\<lparr>users := users state_empty @
                                   [new_user_row state_empty register_request_newline]\<rparr>)"
    by (rule register_commits)
       (simp_all add: register_request_newline_valid state_empty_def env_ok_def)
  have p: "submit_photo env_ok state_empty photo_request_newline =
          ((''Photo submitted successfully!'', 201),
           state_empty\<lparr>disk := (disk state_empty)(upload_path env_ok dawn_png \<mapsto> content dawn_png),
              photos := photos state_empty @
                          [new_photo_row env_ok state_empty photo_request_newline dawn_png]\<rparr>)"
    by (rule submit_photo_commits) (simp_all add: photo_request_newline_valid env_ok_def)
  have "u_vit_id (new_user_row state_empty register_request_newline) = newline_id"
    by (simp add: new_user_row_def register_request_newline_def)
  with r p newline_id_not_format show ?thesis by (simp add: state_empty_def)
qed

section \<open>The uploaded file\<close>

text \<open>
  C5. A photo submission carries a file with a non-empty name. The check of the name
  accepts it exactly when the name contains a dot and what follows its last dot,
  lowercased, is one of png, jpg, jpeg: that is, when it is one of these three words
  written in any mix of lowercase and capital letters. When the check fails the answer
  is 400 and the stored state is unchanged: no file is written and no row is created.
  When the fields before it are accepted, the answer is the 400 of the invalid file type
  exactly when the check fails.
\<close>

theorem submit_photo_extension_check:
  assumes "files req ''photoFile'' = Some f" and "filename f \<noteq> []"
  shows "allowed_file (filename f) = Some (has_allowed_extension (filename f)) \<and>
         has_allowed_extension (filename f) = extension_accepted (filename f) \<and>
         (\<not> extension_accepted (filename f) \<longrightarrow>
            snd (fst (submit_photo ev st req)) = 400 \<and> snd (submit_photo ev st req) = st) \<and>
         (photo_fields_valid req \<longrightarrow>
            (fst (submit_photo ev st req) =
               (''Invalid file type. Only PNG, JPG, JPEG are allowed!'', 400)) =
            (\<not> extension_accepted (filename f)))"
  using assms submit_photo_rejects_extension[OF assms, of ev st]
    submit_photo_invalid_type_iff[OF _ assms, of ev st]
  by (simp add: allowed_file_eq has_allowed_extension_iff)

theorem submit_photo_extension_check_witness:
  "files photo_request_gif ''photoFile'' = Some photo_gif \<and> filename photo_gif = ''photo.gif'' \<and>
   allowed_file ''photo.gif'' = Some False \<and>
   submit_photo env_ok state_empty photo_request_gif =
     ((''Invalid file type. Only PNG, JPG, JPEG are allowed!'', 400), state_empty) \<and>
   files photo_request_mixed_case ''photoFile'' = Some mixed_case_png \<and>
   filename mixed_case_png = ''Dawn.v2.PnG'' \<and>
   after_last CHR ''.'' ''Dawn.v2.PnG'' = ''PnG'' \<and>
   lower ''PnG'' = ''png'' \<and>
   allowed_file ''Dawn.v2.PnG'' = Some True \<and>
   fst (submit_photo env_ok state_empty photo_request_mixed_case) \<noteq>
     (''Invalid file type. Only PNG, JPG, JPEG are allowed!'', 400)"
proof -
  have f: "files photo_request_gif ''photoFile'' = Some photo_gif"
    by (simp add: photo_request_gif_def)
  have n: "filename photo_gif = ''photo.gif''" by (simp add: photo_gif_def)
  have g: "\<not> extension_accepted ''photo.gif''"
    by (simp add: extension_accepted_def after_last_def same_letter_def)
  have v: "photo_fields_valid photo_request_gif"
    by (simp add: photo_request_gif_def photo_fields_valid_sample)
  from submit_photo_extension_check[of photo_request_gif photo_gif env_ok state_empty] f n g v
  have 1: "allowed_file ''photo.gif'' = Some False"
    and 2: "snd (submit_photo env_ok state_empty photo_request_gif) = state_empty"
    and 3: "fst (submit_photo env_ok state_empty photo_request_gif) =
           (''Invalid file type. Only PNG, JPG, JPEG are allowed!'', 400)"
    by simp_all
  have fm: "files photo_request_mixed_case ''photoFile'' = Some mixed_case_png"
    by (simp add: photo_request_mixed_case_def)
  have nm: "filename mixed_case_png = ''Dawn.v2.PnG''" by (simp add: mixed_case_png_def)
  have al: "after_last CHR ''.'' ''Dawn.v2.PnG'' = ''PnG''" by (simp add: after_last_def)
  have lo: "lower ''PnG'' = ''png''" by code_simp
  have gm: "extension_accepted ''Dawn.v2.PnG''"
    by (simp add: extension_accepted_def al same_letter_def)
  have vm: "photo_fields_valid photo_request_mixed_case"
    by (simp add: photo_request_mixed_case_def photo_fields_valid_sample)
  from submit_photo_extension_check[of photo_request_mixed_case mixed_case_png env_ok state_empty]
       fm nm gm vm
  have 4: "allowed_file ''Dawn.v2.PnG'' = Some True"
    and 5: "fst (submit_photo env_ok state_empty photo_request_mixed_case) \<noteq>
           (''Invalid file type. Only PNG, JPG, JPEG are allowed!'', 400)"
    by simp_all
  from f n 1 2 3 fm nm al lo 4 5 show ?thesis by (simp add: prod_eq_iff)
qed

text \<open>
  C6. The claim as it is written does not hold for a file that is empty: the handler
  looks at the name of the file only, so a file of zero bytes with an allowed name is
  saved and answered 201.
\<close>

theorem submit_photo_accepts_empty_file:
  "photo_fields_valid photo_request_empty_file \<and>
   files photo_request_empty_file ''photoFile'' = Some empty_png \<and>
   content empty_png = [] \<and>
   fst (submit_photo env_ok state_empty photo_request_empty_file) =
     (''Photo submitted successfully!'', 201) \<and>
   disk (snd (submit_photo env_ok state_empty photo_request_empty_file)) ''uploads/dawn.png'' =
     Some [] \<and>
   length (photos (snd (submit_photo env_ok state_empty photo_request_empty_file))) = 1"
proof -
  have v: "photo_fields_valid photo_request_empty_file"
    by (simp add: photo_request_empty_file_def photo_fields_valid_sample)
  have f: "files photo_request_empty_file ''photoFile'' = Some empty_png"
    by (simp add: photo_request_empty_file_def)
  have a: "allowed_file (filename empty_png) = Some True"
    by (simp add: empty_png_def allowed_file_dawn)
  have pv: "photo_request_valid photo_request_empty_file empty_png"
    using v f a by (simp add: photo_request_valid_def empty_png_def)
  have u: "upload_path env_ok empty_png = ''uploads/dawn.png''"
    using upload_path_dawn by (simp add: upload_path_def empty_png_def dawn_png_def)
  have "submit_photo env_ok state_empty photo_request_empty_file =
          ((''Photo submitted successfully!'', 201),
           state_empty\<lparr>disk := (disk state_empty)(upload_path env_ok empty_png \<mapsto> content empty_png),
              photos := photos state_empty @
                          [new_photo_row env_ok state_empty photo_request_empty_file empty_png]\<rparr>)"
    by (rule submit_photo_commits) (simp_all add: pv env_ok_def)
  with v f u show ?thesis by (simp add: state_empty_def empty_png_def)
qed

text \<open>
  C6, amended. A photo submission has its four required fields present and an ID that
  matches the pattern. When the request has no file part, or the name of the attached
  file is the empty string, the answer is 400 and the stored state is unchanged: no file
  is written and no row is created.
\<close>

theorem submit_photo_missing_file:
  assumes "photo_fields_valid req"
      and "case files req ''photoFile'' of None \<Rightarrow> True | Some f \<Rightarrow> filename f = []"
  shows "snd (fst (submit_photo ev st req)) = 400 \<and> snd (submit_photo ev st req) = st"
  using assms by (rule submit_photo_no_file)

theorem submit_photo_missing_file_witness:
  "photo_fields_valid photo_request_no_file \<and>
   files photo_request_no_file ''photoFile'' = None \<and>
   snd (fst (submit_photo env_ok state_empty photo_request_no_file)) = 400 \<and>
   snd (submit_photo env_ok state_empty photo_request_no_file) = state_empty \<and>
   snd (fst (submit_photo env_ok state_empty
               \<lparr>form = photo_form, files = [''photoFile'' \<mapsto> \<lparr>filename = [], content = ''PNGDATA''\<rparr>]\<rparr>)) = 400"
proof -
  have v: "photo_fields_valid photo_request_no_file"
    by (simp add: photo_request_no_file_def photo_fields_valid_sample)
  have n: "files photo_request_no_file ''photoFile'' = None"
    by (simp add: photo_request_no_file_def)
  from submit_photo_missing_file[of photo_request_no_file env_ok state_empty]
       submit_photo_missing_file
         [of "\<lparr>form = photo_form, files = [''photoFile'' \<mapsto> \<lparr>filename = [], content = ''PNGDATA''\<rparr>]\<rparr>"
             env_ok state_empty]
       v n photo_fields_valid_sample
  show ?thesis by simp
qed

lemma slash_not_ok: "\<not> filename_ascii_ok CHR ''/''"
  by (simp add: filename_ascii_ok_def in_class_def)

lemma sanitized_name_safe:
  assumes "has_allowed_extension name"
  shows "secure_filename d name \<noteq> []"
    and "list_all filename_ascii_ok (secure_filename d name)"
    and "CHR ''/'' \<notin> set (secure_filename d name)"
    and "hd (secure_filename d name) \<noteq> CHR ''.''"
proof -
  from allowed_extension_letter[OF assms] obtain c where "c \<in> set name" "plain_letter c"
    by blast
  then show ne: "secure_filename d name \<noteq> []" by (rule secure_filename_nonempty)
  show "list_all filename_ascii_ok (secure_filename d name)"
    using secure_filename_chars[of _ d name] by (simp add: list_all_iff)
  show "CHR ''/'' \<notin> set (secure_filename d name)"
    using secure_filename_chars[of "CHR ''/''" d name] slash_not_ok by blast
  from ne show "hd (secure_filename d name) \<noteq> CHR ''.''" by (rule secure_filename_hd)
qed

text \<open>
  C8. A photo submission is accepted (answered 201). Then the file is saved at the path
  made of the upload directory and the sanitized form of the name the client gave, and
  the row appended to the PhotoSubmission table stores that same sanitized name. The
  sanitized name is not empty, has only letters, digits, underscores, dots and hyphens,
  so no path separator, and does not begin with a dot, so it is neither \<open>.\<close> nor \<open>..\<close>:
  whatever the client's name, the file lies directly inside the upload directory. No
  other path of the disk is touched.
\<close>

theorem submit_photo_saves_under_sanitized_name:
  assumes "snd (fst (submit_photo ev st req)) = 201"
  shows "\<exists>f. files req ''photoFile'' = Some f \<and>
           (let name = secure_filename (decomp ev) (filename f);
                file_path = os_path_join UPLOAD_FOLDER name
            in disk (snd (submit_photo ev st req)) file_path = Some (content f) \<and>
               (\<forall>p. p \<noteq> file_path \<longrightarrow> disk (snd (submit_photo ev st req)) p = disk st p) \<and>
               photos (snd (submit_photo ev st req)) = photos st @ [new_photo_row ev st req f] \<and>
               p_photo_filename (new_photo_row ev st req f) = name \<and>
               file_path = ''uploads/'' @ name \<and>
               name \<noteq> [] \<and> list_all filename_ascii_ok name \<and> CHR ''/'' \<notin> set name \<and>
               hd name \<noteq> CHR ''.'' \<and>
               directly_inside UPLOAD_FOLDER file_path)"
proof -
  from submit_photo_created[OF assms] obtain f
    where valid: "photo_request_valid req f"
      and st': "snd (submit_photo ev st req) =
                  st\<lparr>disk := (disk st)(upload_path ev f \<mapsto> content f),
                     photos := photos st @ [new_photo_row ev st req f]\<rparr>"
    by blast
  let ?name = "secure_filename (decomp ev) (filename f)"
  from valid have fl: "files req ''photoFile'' = Some f"
    and ext: "has_allowed_extension (filename f)"
    by (simp_all add: photo_request_valid_def allowed_file_eq)
  note safe = sanitized_name_safe[OF ext, of "decomp ev"]
  note inside = os_path_join_inside[OF safe(1) safe(3) safe(4)]
  have d: "disk (snd (submit_photo ev st req)) (os_path_join UPLOAD_FOLDER ?name) = Some (content f)"
    "\<forall>p. p \<noteq> os_path_join UPLOAD_FOLDER ?name \<longrightarrow>
       disk (snd (submit_photo ev st req)) p = disk st p"
    "photos (snd (submit_photo ev st req)) = photos st @ [new_photo_row ev st req f]"
    "p_photo_filename (new_photo_row ev st req f) = ?name"
    by (simp_all add: st' upload_path_def new_photo_row_def)
  show ?thesis
    unfolding Let_def
    by (intro exI[of _ f] conjI) (fact fl d safe inside)+
qed

theorem submit_photo_saves_under_sanitized_name_witness:
  "snd (fst (submit_photo env_ok state_empty photo_request_traversal)) = 201 \<and>
   filename traversal_png = ''../../etc/passwd.png'' \<and>
   disk (snd (submit_photo env_ok state_empty photo_request_traversal)) ''uploads/etc_passwd.png'' =
     Some ''PNGDATA'' \<and>
   map p_photo_filename (photos (snd (submit_photo env_ok state_empty photo_request_traversal))) =
     [''etc_passwd.png''] \<and>
   directly_inside UPLOAD_FOLDER ''uploads/etc_passwd.png''"
proof -
  have ext: "has_allowed_extension (filename traversal_png)"
    by (simp add: traversal_png_def has_allowed_extension_traversal)
  have pv: "photo_request_valid photo_request_traversal traversal_png"
    using ext
    by (simp add: photo_request_valid_def photo_request_traversal_def photo_fields_valid_sample
        allowed_file_eq traversal_png_def)
  have ok: "snd (fst (submit_photo env_ok state_empty photo_request_traversal)) = 201"
    using submit_photo_commits[OF pv, of env_ok state_empty] by (simp add: env_ok_def)
  have name: "secure_filename (decomp env_ok) (filename traversal_png) = ''etc_passwd.png''"
    using secure_filename_traversal by (simp add: traversal_png_def)
  from submit_photo_saves_under_sanitized_name[OF ok] obtain f
    where f: "files photo_request_traversal ''photoFile'' = Some f"
      and c: "let name = secure_filename (decomp env_ok) (filename f);
                  file_path = os_path_join UPLOAD_FOLDER name
              in disk (snd (submit_photo env_ok state_empty photo_request_traversal)) file_path =
                   Some (content f) \<and>
                 (\<forall>p. p \<noteq> file_path \<longrightarrow>
                    disk (snd (submit_photo env_ok state_empty photo_request_traversal)) p =
                    disk state_empty p) \<and>
                 photos (snd (submit_photo env_ok state_empty photo_request_traversal)) =
                   photos state_empty @ [new_photo_row env_ok state_empty photo_request_traversal f] \<and>
                 p_photo_filename (new_photo_row env_ok state_empty photo_request_traversal f) = name \<and>
                 file_path = ''uploads/'' @ name \<and>
                 name \<noteq> [] \<and> list_all filename_ascii_ok name \<and> CHR ''/'' \<notin> set name \<and>
                 hd name \<noteq> CHR ''.'' \<and>
                 directly_inside UPLOAD_FOLDER file_path"
    by blast
  from f have "f = traversal_png" by (simp add: photo_request_traversal_def)
  with c name ok show ?thesis
    by (simp add: Let_def state_empty_def traversal_png_def os_path_join_def UPLOAD_FOLDER_def)
qed

section \<open>Photo submissions and the User table\<close>

text \<open>
  C9. The claim as it is written does not hold: a photo submission that passes every
  validation is answered 500, and no row is created, when saving its file raises.
\<close>

theorem submit_photo_valid_request_save_failure:
  "photo_request_valid photo_request dawn_png \<and>
   fst (submit_photo env_save_fails state_empty photo_request) =
     (''Error saving file: No space left on device'', 500) \<and>
   photos (snd (submit_photo env_save_fails state_empty photo_request)) = []"
proof -
  have "submit_photo env_save_fails state_empty photo_request =
          ((''Error saving file: '' @ ''No space left on device'', 500), state_empty)"
    using photo_request_is_valid
    by (simp add: submit_photo_unfold photo_request_valid_def photo_fields_valid_def
        allowed_file_eq env_save_fails_def)
  then show ?thesis by (simp add: photo_request_is_valid state_empty_def)
qed

text \<open>
  C9, amended. \<open>submit_photo\<close> never consults the User table: its answer and what it
  does to the photos and the disk are the same whatever the table holds, and it leaves
  the table as it is. So a photo submission that passes the field, ID-format and file
  validation, and whose file save and commit do not raise, is answered 201 and its row
  is created, whether or not any registered User has the submitted ID.
\<close>

theorem submit_photo_ignores_user_table:
  assumes "photo_request_valid req f" and "save_exc ev = None" and "commit_exc ev = None"
  shows "fst (submit_photo ev (st\<lparr>users := us\<rparr>) req) = (''Photo submitted successfully!'', 201) \<and>
         photos (snd (submit_photo ev (st\<lparr>users := us\<rparr>) req)) =
           photos st @ [new_photo_row ev st req f] \<and>
         users (snd (submit_photo ev (st\<lparr>users := us\<rparr>) req)) = us \<and>
         submit_photo ev (st\<lparr>users := us\<rparr>) req =
           (fst (submit_photo ev st req), (snd (submit_photo ev st req))\<lparr>users := us\<rparr>)"
  using submit_photo_commits[OF assms, where st = st]
    submit_photo_ignores_users[where ev = ev and st = st and us = us and req = req]
  by simp

theorem submit_photo_ignores_user_table_witness:
  "photo_request_valid photo_request dawn_png \<and>
   save_exc env_ok = None \<and> commit_exc env_ok = None \<and>
   users state_asha = [user_asha] \<and> users state_empty = [] \<and>
   fst (submit_photo env_ok state_asha photo_request) = (''Photo submitted successfully!'', 201) \<and>
   fst (submit_photo env_ok state_empty photo_request) = (''Photo submitted successfully!'', 201) \<and>
   map p_vit_id (photos (snd (submit_photo env_ok state_empty photo_request))) = [''21ABC1234''] \<and>
   users (snd (submit_photo env_ok state_asha photo_request)) = [user_asha]"
proof -
  have a: "state_asha = state_empty\<lparr>users := [user_asha]\<rparr>"
    by (simp add: state_asha_def state_empty_def)
  have e: "state_empty = state_empty\<lparr>users := []\<rparr>" by (simp add: state_empty_def)
  have v: "p_vit_id (new_photo_row env_ok state_empty photo_request dawn_png) = ''21ABC1234''"
    by (simp add: new_photo_row_def photo_request_def photo_form_def)
  have o: "save_exc env_ok = None" "commit_exc env_ok = None" by (simp_all add: env_ok_def)
  from submit_photo_ignores_user_table
         [OF photo_request_is_valid o, where st = state_empty and us = "[user_asha]"]
       submit_photo_ignores_user_table
         [OF photo_request_is_valid o, where st = state_empty and us = "[]"]
  have "fst (submit_photo env_ok state_asha photo_request) = (''Photo submitted successfully!'', 201)"
    and "fst (submit_photo env_ok state_empty photo_request) = (''Photo submitted successfully!'', 201)"
    and "photos (snd (submit_photo env_ok state_empty photo_request)) =
           photos state_empty @ [new_photo_row env_ok state_empty photo_request dawn_png]"
    and "users (snd (submit_photo env_ok state_asha photo_request)) = [user_asha]"
    unfolding a[symmetric] e[symmetric] by simp_all
  with v o photo_request_is_valid show ?thesis
    by (simp add: state_asha_def state_empty_def)
qed

end
